theory Spec2Isabelle
  imports Complex_Main "HOL-Library.AList"
begin

section \<open>Cell values\<close>

text \<open>
  The notebook \<^verbatim>\<open>feature_engineering.ipynb\<close> works on a pandas DataFrame read from a
  CSV file. A cell of such a table holds an integer, a float or a string. A float is a
  finite number, one of the two infinities (\<^verbatim>\<open>np.inf\<close>, \<^verbatim>\<open>-np.inf\<close>) or the
  missing-value marker \<^verbatim>\<open>np.nan\<close>. Finite floats are carried as rationals; the
  rounding of an exact number to the float format is the parameter \<open>rnd\<close> of the
  conversions and divisions below (it may overflow to an infinity). The rounding of
  double precision is \<open>round64\<close> below. The sign of a float zero is not represented.
  Integers are unbounded; a column of integers has the dtype \<^verbatim>\<open>int64\<close> when all of
  them fit 64 bits. Boolean cells and unsigned 64-bit columns are not represented.
\<close>

datatype pyfloat = Finite rat | PInf | NInf | NaN

datatype cell = IntC int | FloatC pyfloat | StrC string

datatype py_error = KeyError string | TypeError | ValueError | OverflowError | ZeroDivisionError

fun is_inf :: "pyfloat \<Rightarrow> bool" where
  "is_inf PInf = True"
| "is_inf NInf = True"
| "is_inf _ = False"

text \<open>Float comparisons: every comparison with \<^verbatim>\<open>nan\<close> is false.\<close>

fun fl_less :: "pyfloat \<Rightarrow> pyfloat \<Rightarrow> bool" where
  "fl_less NaN _ = False"
| "fl_less _ NaN = False"
| "fl_less (Finite a) (Finite b) = (a < b)"
| "fl_less NInf NInf = False"
| "fl_less NInf _ = True"
| "fl_less _ NInf = False"
| "fl_less PInf _ = False"
| "fl_less _ PInf = True"

fun fl_eq :: "pyfloat \<Rightarrow> pyfloat \<Rightarrow> bool" where
  "fl_eq NaN _ = False"
| "fl_eq _ NaN = False"
| "fl_eq a b = (a = b)"

definition fl_le :: "pyfloat \<Rightarrow> pyfloat \<Rightarrow> bool" where
  "fl_le a b = (fl_less a b \<or> fl_eq a b)"

text \<open>The number a cell stands for in a comparison with an integer literal; a string has none.\<close>

fun num_of :: "cell \<Rightarrow> pyfloat option" where
  "num_of (IntC i) = Some (Finite (of_int i))"
| "num_of (FloatC f) = Some f"
| "num_of (StrC s) = None"

text \<open>
  \<^verbatim>\<open>x > k\<close> and \<^verbatim>\<open>x <= k\<close> for an integer literal \<open>k\<close>: Python raises TypeError
  when \<open>x\<close> is a string. \<^verbatim>\<open>x == k\<close> never raises: a string is not equal to a number.
\<close>

definition py_gt :: "cell \<Rightarrow> int \<Rightarrow> py_error + bool" where
  "py_gt x k = (case num_of x of None \<Rightarrow> Inl TypeError
                | Some f \<Rightarrow> Inr (fl_less (Finite (of_int k)) f))"

definition py_le :: "cell \<Rightarrow> int \<Rightarrow> py_error + bool" where
  "py_le x k = (case num_of x of None \<Rightarrow> Inl TypeError
                | Some f \<Rightarrow> Inr (fl_le f (Finite (of_int k))))"

definition py_eq :: "cell \<Rightarrow> int \<Rightarrow> bool" where
  "py_eq x k = (case num_of x of None \<Rightarrow> False
                | Some f \<Rightarrow> fl_eq f (Finite (of_int k)))"

subsection \<open>Division\<close>

text \<open>
  The division of two floats, rounded by \<open>rnd\<close>. A zero divisor gives an infinity or
  \<^verbatim>\<open>nan\<close>, as it does for numpy scalars (numpy warns, it does not raise).
\<close>

fun fl_div :: "(rat \<Rightarrow> pyfloat) \<Rightarrow> pyfloat \<Rightarrow> pyfloat \<Rightarrow> pyfloat" where
  "fl_div rnd NaN _ = NaN"
| "fl_div rnd _ NaN = NaN"
| "fl_div rnd (Finite a) (Finite b) =
     (if b = 0 then (if a = 0 then NaN else if 0 < a then PInf else NInf)
      else rnd (a / b))"
| "fl_div rnd (Finite a) _ = Finite 0"
| "fl_div rnd PInf (Finite b) = (if 0 \<le> b then PInf else NInf)"
| "fl_div rnd NInf (Finite b) = (if 0 \<le> b then NInf else PInf)"
| "fl_div rnd _ _ = NaN"

text \<open>
  True division \<^verbatim>\<open>a / b\<close> of two numpy scalars (\<^verbatim>\<open>np.int64\<close>, \<^verbatim>\<open>np.float64\<close>):
  each integer is converted to a float first, so an integer quotient is rounded twice.
\<close>

fun to_float :: "(rat \<Rightarrow> pyfloat) \<Rightarrow> cell \<Rightarrow> pyfloat option" where
  "to_float rnd (IntC i) = Some (rnd (of_int i))"
| "to_float rnd (FloatC f) = Some f"
| "to_float rnd (StrC s) = None"

definition np_truediv :: "(rat \<Rightarrow> pyfloat) \<Rightarrow> cell \<Rightarrow> cell \<Rightarrow> py_error + pyfloat" where
  "np_truediv rnd a b =
     (case to_float rnd a of None \<Rightarrow> Inl TypeError
      | Some x \<Rightarrow> (case to_float rnd b of None \<Rightarrow> Inl TypeError
                   | Some y \<Rightarrow> Inr (fl_div rnd x y)))"

text \<open>
  True division \<^verbatim>\<open>a / b\<close> of two Python objects. The quotient of two Python integers is
  the exact quotient rounded once; it raises OverflowError when that is too large for a
  float. With a float operand, an integer operand is converted by \<^verbatim>\<open>float\<close>, which
  raises OverflowError when the integer is too large. A zero divisor raises
  ZeroDivisionError and a string operand TypeError.
\<close>

fun py_float :: "(rat \<Rightarrow> pyfloat) \<Rightarrow> cell \<Rightarrow> py_error + pyfloat" where
  "py_float rnd (IntC i) =
     (if is_inf (rnd (of_int i)) then Inl OverflowError else Inr (rnd (of_int i)))"
| "py_float rnd (FloatC f) = Inr f"
| "py_float rnd (StrC s) = Inl TypeError"

fun py_truediv :: "(rat \<Rightarrow> pyfloat) \<Rightarrow> cell \<Rightarrow> cell \<Rightarrow> py_error + pyfloat" where
  "py_truediv rnd (StrC s) b = Inl TypeError"
| "py_truediv rnd a (StrC s) = Inl TypeError"
| "py_truediv rnd (IntC a) (IntC b) =
     (if b = 0 then Inl ZeroDivisionError
      else if is_inf (rnd (of_int a / of_int b)) then Inl OverflowError
      else Inr (rnd (of_int a / of_int b)))"
| "py_truediv rnd a b =
     (case py_float rnd a of Inl e \<Rightarrow> Inl e
      | Inr x \<Rightarrow> (case py_float rnd b of Inl e \<Rightarrow> Inl e
                  | Inr y \<Rightarrow> if y = Finite 0 then Inl ZeroDivisionError
                             else Inr (fl_div rnd x y)))"

subsection \<open>Rounding to double precision\<close>










section \<open>The table\<close>

text \<open>
  A DataFrame is an ordered list of named columns, each a list of cells with one entry per
  row. \<^verbatim>\<open>df[c]\<close> raises KeyError when there is no column \<open>c\<close>. \<^verbatim>\<open>df[c] = s\<close>
  replaces the column \<open>c\<close> where it stands when the table has one, and appends a new last
  column otherwise. Reading the CSV file and writing it are not modelled: the pipeline
  below takes the loaded table and returns the table that is written.
\<close>

record dataframe =
  nrows :: nat
  cols :: "(string \<times> cell list) list"

definition columns :: "dataframe \<Rightarrow> string list" where
  "columns df = map fst (cols df)"

definition wf_df :: "dataframe \<Rightarrow> bool" where
  "wf_df df = (distinct (columns df) \<and> list_all (\<lambda>p. length (snd p) = nrows df) (cols df))"

definition df_getitem :: "dataframe \<Rightarrow> string \<Rightarrow> py_error + cell list" where
  "df_getitem df c = (case map_of (cols df) c of None \<Rightarrow> Inl (KeyError c) | Some s \<Rightarrow> Inr s)"

definition df_setitem :: "dataframe \<Rightarrow> string \<Rightarrow> cell list \<Rightarrow> dataframe" where
  "df_setitem df c s = df\<lparr>cols := AList.update c s (cols df)\<rparr>"

text \<open>The cell of column \<open>c\<close> in row \<open>i\<close>, when the table has one.\<close>

definition cell_at :: "dataframe \<Rightarrow> string \<Rightarrow> nat \<Rightarrow> cell option" where
  "cell_at df c i = (case map_of (cols df) c of None \<Rightarrow> None
                     | Some s \<Rightarrow> if i < length s then Some (s ! i) else None)"

subsection \<open>Dtypes and rows\<close>

text \<open>
  A column of integers that fit 64 bits has the dtype \<^verbatim>\<open>int64\<close>, a column of floats
  \<^verbatim>\<open>float64\<close>, any other column (strings, or a mix) \<^verbatim>\<open>object\<close>. The common dtype of a
  table is \<^verbatim>\<open>object\<close> when a column is, else \<^verbatim>\<open>float64\<close> when a column is, else
  \<^verbatim>\<open>int64\<close>.
\<close>

datatype dtype = Int64 | Float64 | Object

fun is_int64 :: "cell \<Rightarrow> bool" where
  "is_int64 (IntC i) = (- (2 ^ 63) \<le> i \<and> i < 2 ^ 63)"
| "is_int64 _ = False"

fun is_float :: "cell \<Rightarrow> bool" where
  "is_float (FloatC f) = True"
| "is_float _ = False"

definition col_dtype :: "cell list \<Rightarrow> dtype" where
  "col_dtype s = (if list_all is_int64 s then Int64
                  else if list_all is_float s then Float64 else Object)"

definition frame_dtype :: "(string \<times> cell list) list \<Rightarrow> dtype" where
  "frame_dtype cs =
     (if list_ex (\<lambda>p. col_dtype (snd p) = Object) cs then Object
      else if list_ex (\<lambda>p. col_dtype (snd p) = Float64) cs then Float64 else Int64)"

text \<open>
  \<^verbatim>\<open>DataFrame.apply(f, axis=1)\<close> hands \<open>f\<close> each row as a Series of the table's common
  dtype: in a \<^verbatim>\<open>float64\<close> table the integers of the row arrive converted to floats;
  in an \<^verbatim>\<open>object\<close> table the cells arrive as Python objects; in an \<^verbatim>\<open>int64\<close> table
  they are \<^verbatim>\<open>np.int64\<close> scalars.
\<close>

fun coerce_cell :: "(rat \<Rightarrow> pyfloat) \<Rightarrow> dtype \<Rightarrow> cell \<Rightarrow> cell" where
  "coerce_cell rnd Float64 (IntC i) = FloatC (rnd (of_int i))"
| "coerce_cell rnd dt c = c"

definition df_row :: "(rat \<Rightarrow> pyfloat) \<Rightarrow> dataframe \<Rightarrow> nat \<Rightarrow> string \<Rightarrow> cell option" where
  "df_row rnd df i c = map_option (coerce_cell rnd (frame_dtype (cols df))) (cell_at df c i)"

text \<open>
  \<^verbatim>\<open>a / b\<close> on two cells of a row of dtype \<open>dt\<close>: the division of Python objects in
  an \<^verbatim>\<open>object\<close> row and that of numpy scalars otherwise.
\<close>

definition row_truediv :: "(rat \<Rightarrow> pyfloat) \<Rightarrow> dtype \<Rightarrow> cell \<Rightarrow> cell \<Rightarrow> py_error + pyfloat" where
  "row_truediv rnd dt a b = (if dt = Object then py_truediv rnd a b else np_truediv rnd a b)"

text \<open>
  \<^verbatim>\<open>Series.apply(f)\<close> calls \<open>f\<close> on each element in order; the first exception aborts
  the whole call.
\<close>

fun apply_each :: "('a \<Rightarrow> py_error + 'b) \<Rightarrow> 'a list \<Rightarrow> py_error + 'b list" where
  "apply_each f [] = Inr []"
| "apply_each f (x # xs) =
     (case f x of Inl e \<Rightarrow> Inl e
      | Inr y \<Rightarrow> (case apply_each f xs of Inl e \<Rightarrow> Inl e | Inr ys \<Rightarrow> Inr (y # ys)))"

text \<open>
  \<^verbatim>\<open>DataFrame.apply(f, axis=1)\<close> does the same with the rows; \<open>f\<close> is given the dtype
  of the row with the row. On a table without rows pandas calls \<open>f\<close> once, on a
  \<^verbatim>\<open>float64\<close> row that has \<^verbatim>\<open>nan\<close> in every column: when that call returns, the result
  is an empty Series, and when it raises, the exception is dropped and the result is a
  copy of the table.
\<close>

datatype apply_result = SeriesR "cell list" | FrameR dataframe

definition nan_row :: "dataframe \<Rightarrow> string \<Rightarrow> cell option" where
  "nan_row df c = (if c \<in> set (columns df) then Some (FloatC NaN) else None)"

definition df_apply_rows ::
  "(rat \<Rightarrow> pyfloat) \<Rightarrow> (dtype \<Rightarrow> (string \<Rightarrow> cell option) \<Rightarrow> py_error + cell) \<Rightarrow>
     dataframe \<Rightarrow> py_error + apply_result" where
  "df_apply_rows rnd f df =
     (if nrows df = 0
      then (case f Float64 (nan_row df) of Inl e \<Rightarrow> Inr (FrameR df)
            | Inr r \<Rightarrow> Inr (SeriesR []))
      else (case apply_each (\<lambda>i. f (frame_dtype (cols df)) (df_row rnd df i)) [0..<nrows df] of
              Inl e \<Rightarrow> Inl e
            | Inr v \<Rightarrow> Inr (SeriesR v)))"

section \<open>The derivations of the notebook\<close>

text \<open>\<^verbatim>\<open>lambda x: 1 if x > 0 else 0\<close>, used for \<open>has_review\<close> and \<open>active_listing\<close>.\<close>

definition positive_flag :: "cell \<Rightarrow> py_error + cell" where
  "positive_flag x = (case py_gt x 0 of Inl e \<Rightarrow> Inl e
                      | Inr b \<Rightarrow> Inr (IntC (if b then 1 else 0)))"

text \<open>
  \<^verbatim>\<open>lambda row: row['price'] / row['minimum_nights'] if row['minimum_nights'] > 0 else np.nan\<close>:
  the condition is evaluated first, the price is read only when it holds.
\<close>

definition price_per_night_row ::
  "(rat \<Rightarrow> pyfloat) \<Rightarrow> dtype \<Rightarrow> (string \<Rightarrow> cell option) \<Rightarrow> py_error + cell" where
  "price_per_night_row rnd dt row =
     (case row ''minimum_nights'' of None \<Rightarrow> Inl (KeyError ''minimum_nights'')
      | Some m \<Rightarrow>
         (case py_gt m 0 of Inl e \<Rightarrow> Inl e
          | Inr b \<Rightarrow>
             (if b then (case row ''price'' of None \<Rightarrow> Inl (KeyError ''price'')
                         | Some p \<Rightarrow>
                            (case row_truediv rnd dt p m of Inl e \<Rightarrow> Inl e
                             | Inr q \<Rightarrow> Inr (FloatC q)))
              else Inr (FloatC NaN))))"

text \<open>\<^verbatim>\<open>.replace([np.inf, -np.inf], np.nan)\<close> on one element.\<close>

fun replace_inf :: "cell \<Rightarrow> cell" where
  "replace_inf (FloatC f) = (if is_inf f then FloatC NaN else FloatC f)"
| "replace_inf c = c"

definition categorize_availability :: "cell \<Rightarrow> py_error + cell" where
  "categorize_availability x =
     (if py_eq x 0 then Inr (StrC ''Not Available'')
      else (case py_le x 120 of Inl e \<Rightarrow> Inl e
            | Inr b1 \<Rightarrow>
               (if b1 then Inr (StrC ''Low'')
                else (case py_le x 240 of Inl e \<Rightarrow> Inl e
                      | Inr b2 \<Rightarrow>
                         (if b2 then Inr (StrC ''Medium'') else Inr (StrC ''High''))))))"

text \<open>
  One element of \<^verbatim>\<open>(df['room_type'] == 'Entire home/apt').astype(int)\<close>: the comparison
  of a number with a string is false, not an error.
\<close>

fun is_entire_home :: "cell \<Rightarrow> cell" where
  "is_entire_home (StrC s) = IntC (if s = ''Entire home/apt'' then 1 else 0)"
| "is_entire_home _ = IntC 0"

subsection \<open>The code cells, one function each\<close>

definition add_has_review :: "dataframe \<Rightarrow> py_error + dataframe" where
  "add_has_review df =
     (case df_getitem df ''number_of_reviews'' of Inl e \<Rightarrow> Inl e
      | Inr s \<Rightarrow> (case apply_each positive_flag s of Inl e \<Rightarrow> Inl e
                  | Inr v \<Rightarrow> Inr (df_setitem df ''has_review'' v)))"

text \<open>
  Assigning a whole table to the one column \<open>price_per_night\<close> raises ValueError; that is
  what happens on a table without rows and without a \<open>minimum_nights\<close> column.
\<close>

definition add_price_per_night :: "(rat \<Rightarrow> pyfloat) \<Rightarrow> dataframe \<Rightarrow> py_error + dataframe" where
  "add_price_per_night rnd df =
     (case df_apply_rows rnd (price_per_night_row rnd) df of Inl e \<Rightarrow> Inl e
      | Inr (FrameR t) \<Rightarrow> Inl ValueError
      | Inr (SeriesR v) \<Rightarrow>
         (let df1 = df_setitem df ''price_per_night'' v
          in case df_getitem df1 ''price_per_night'' of Inl e \<Rightarrow> Inl e
             | Inr s \<Rightarrow> Inr (df_setitem df1 ''price_per_night'' (map replace_inf s))))"

definition add_active_listing :: "dataframe \<Rightarrow> py_error + dataframe" where
  "add_active_listing df =
     (case df_getitem df ''availability_365'' of Inl e \<Rightarrow> Inl e
      | Inr s \<Rightarrow> (case apply_each positive_flag s of Inl e \<Rightarrow> Inl e
                  | Inr v \<Rightarrow> Inr (df_setitem df ''active_listing'' v)))"

definition add_seasonal_availability :: "dataframe \<Rightarrow> py_error + dataframe" where
  "add_seasonal_availability df =
     (case df_getitem df ''availability_365'' of Inl e \<Rightarrow> Inl e
      | Inr s \<Rightarrow> (case apply_each categorize_availability s of Inl e \<Rightarrow> Inl e
                  | Inr v \<Rightarrow> Inr (df_setitem df ''seasonal_availability'' v)))"

definition add_is_entire_home :: "dataframe \<Rightarrow> py_error + dataframe" where
  "add_is_entire_home df =
     (case df_getitem df ''room_type'' of Inl e \<Rightarrow> Inl e
      | Inr s \<Rightarrow> Inr (df_setitem df ''is_entire_home'' (map is_entire_home s)))"

text \<open>
  The notebook from the loaded table to the table it writes: the cells run in order, each
  on the table the one before left, and the first exception ends the run.
\<close>

definition pipeline :: "(rat \<Rightarrow> pyfloat) \<Rightarrow> dataframe \<Rightarrow> py_error + dataframe" where
  "pipeline rnd df =
     (case add_has_review df of Inl e \<Rightarrow> Inl e
      | Inr df1 \<Rightarrow>
     (case add_price_per_night rnd df1 of Inl e \<Rightarrow> Inl e
      | Inr df2 \<Rightarrow>
     (case add_active_listing df2 of Inl e \<Rightarrow> Inl e
      | Inr df3 \<Rightarrow>
     (case add_seasonal_availability df3 of Inl e \<Rightarrow> Inl e
      | Inr df4 \<Rightarrow> add_is_entire_home df4))))"


definition derived_names :: "string list" where
  "derived_names = [''has_review'', ''price_per_night'', ''active_listing'',
                    ''seasonal_availability'', ''is_entire_home'']"

text \<open>
  The dtype of the rows that the \<open>price_per_night\<close> cell sees in a run on \<open>df\<close>: by
  then \<open>has_review\<close> is a column of the integers 0 and 1, so the other columns decide.
\<close>

definition rows_dtype :: "dataframe \<Rightarrow> dtype" where
  "rows_dtype df = frame_dtype (AList.delete ''has_review'' (cols df))"



section \<open>Sample tables\<close>

text \<open>
  Three listings with the five columns the notebook reads, and the table the notebook
  makes of them (with exact division for the float rounding). The third listing has an
  infinite price.
\<close>

definition sample_listings :: dataframe where
  "sample_listings = \<lparr>nrows = 3, cols =
     [(''number_of_reviews'', [IntC 9, IntC 0, IntC 2]),
      (''price'', [FloatC (Finite 150), FloatC (Finite 80), FloatC PInf]),
      (''minimum_nights'', [IntC 3, IntC 0, IntC 2]),
      (''availability_365'', [IntC 365, IntC 0, IntC 200]),
      (''room_type'', [StrC ''Entire home/apt'', StrC ''Private room'', StrC ''Shared room''])]\<rparr>"

definition sample_out :: dataframe where
  "sample_out = \<lparr>nrows = 3, cols =
     [(''number_of_reviews'', [IntC 9, IntC 0, IntC 2]),
      (''price'', [FloatC (Finite 150), FloatC (Finite 80), FloatC PInf]),
      (''minimum_nights'', [IntC 3, IntC 0, IntC 2]),
      (''availability_365'', [IntC 365, IntC 0, IntC 200]),
      (''room_type'', [StrC ''Entire home/apt'', StrC ''Private room'', StrC ''Shared room'']),
      (''has_review'', [IntC 1, IntC 0, IntC 1]),
      (''price_per_night'', [FloatC (Finite 50), FloatC NaN, FloatC NaN]),
      (''active_listing'', [IntC 1, IntC 0, IntC 1]),
      (''seasonal_availability'', [StrC ''High'', StrC ''Not Available'', StrC ''Medium'']),
      (''is_entire_home'', [IntC 1, IntC 0, IntC 0])]\<rparr>"

text \<open>
  Two listings in another column order, with the review counts as floats; the first has
  the field values of the third listing above.
\<close>

definition sample_reordered :: dataframe where
  "sample_reordered = \<lparr>nrows = 2, cols =
     [(''room_type'', [StrC ''Shared room'', StrC ''Entire home/apt'']),
      (''availability_365'', [IntC 200, IntC 12]),
      (''minimum_nights'', [IntC 2, IntC 1]),
      (''price'', [FloatC PInf, FloatC (Finite 99)]),
      (''number_of_reviews'', [FloatC (Finite 2), FloatC (Finite 0)])]\<rparr>"

definition reordered_out :: dataframe where
  "reordered_out = \<lparr>nrows = 2, cols =
     [(''room_type'', [StrC ''Shared room'', StrC ''Entire home/apt'']),
      (''availability_365'', [IntC 200, IntC 12]),
      (''minimum_nights'', [IntC 2, IntC 1]),
      (''price'', [FloatC PInf, FloatC (Finite 99)]),
      (''number_of_reviews'', [FloatC (Finite 2), FloatC (Finite 0)]),
      (''has_review'', [IntC 1, IntC 0]),
      (''price_per_night'', [FloatC NaN, FloatC (Finite 99)]),
      (''active_listing'', [IntC 1, IntC 1]),
      (''seasonal_availability'', [StrC ''Medium'', StrC ''Low'']),
      (''is_entire_home'', [IntC 0, IntC 1])]\<rparr>"

text \<open>A table that already has a column named \<open>has_review\<close>, as the notebook's own output has.\<close>

definition flagged_listings :: dataframe where
  "flagged_listings = \<lparr>nrows = 1, cols =
     [(''has_review'', [IntC 7]),
      (''number_of_reviews'', [IntC 0]),
      (''price'', [IntC 100]),
      (''minimum_nights'', [IntC 2]),
      (''availability_365'', [IntC 10]),
      (''room_type'', [StrC ''Private room''])]\<rparr>"

definition flagged_out :: dataframe where
  "flagged_out = \<lparr>nrows = 1, cols =
     [(''has_review'', [IntC 0]),
      (''number_of_reviews'', [IntC 0]),
      (''price'', [IntC 100]),
      (''minimum_nights'', [IntC 2]),
      (''availability_365'', [IntC 10]),
      (''room_type'', [StrC ''Private room'']),
      (''price_per_night'', [FloatC (Finite 50)]),
      (''active_listing'', [IntC 1]),
      (''seasonal_availability'', [StrC ''Low'']),
      (''is_entire_home'', [IntC 0])]\<rparr>"





section \<open>The rounding of double precision keeps the sign of integers\<close>










section \<open>Properties of the table operations\<close>

lemma apply_each_Inr:
  "apply_each f xs = Inr ys \<Longrightarrow>
     length ys = length xs \<and> (\<forall>i<length xs. f (xs ! i) = Inr (ys ! i))"
proof (induction xs arbitrary: ys)
  case Nil
  then show ?case by simp
next
  case (Cons x xs)
  from Cons.prems obtain y ys' where fx: "f x = Inr y"
    and rest: "apply_each f xs = Inr ys'" and ys: "ys = y # ys'"
    by (auto split: sum.splits)
  from Cons.IH [OF rest] have len: "length ys' = length xs"
    and nth: "\<forall>i<length xs. f (xs ! i) = Inr (ys' ! i)" by simp_all
  show ?case
  proof (intro conjI allI impI)
    show "length ys = length (x # xs)" using len ys by simp
  next
    fix i assume "i < length (x # xs)"
    then show "f ((x # xs) ! i) = Inr (ys ! i)"
      using fx nth ys by (cases i) simp_all
  qed
qed

lemma wf_df_length:
  "wf_df df \<Longrightarrow> map_of (cols df) c = Some s \<Longrightarrow> length s = nrows df"
proof -
  assume wf: "wf_df df" and c: "map_of (cols df) c = Some s"
  from c have "(c, s) \<in> set (cols df)" by (rule map_of_SomeD)
  with wf show ?thesis by (fastforce simp: wf_df_def list_all_iff)
qed

lemma cols_setitem [simp]: "cols (df_setitem df c s) = AList.update c s (cols df)"
  by (simp add: df_setitem_def)

lemma nrows_setitem [simp]: "nrows (df_setitem df c s) = nrows df"
  by (simp add: df_setitem_def)

lemma setitem_setitem [simp]:
  "df_setitem (df_setitem df c s) c t = df_setitem df c t"
  by (simp add: df_setitem_def)

lemma cell_at_setitem:
  "cell_at (df_setitem df c s) d i =
     (if d = c then (if i < length s then Some (s ! i) else None) else cell_at df d i)"
  by (simp add: cell_at_def update_conv')

lemma cell_at_Some:
  "map_of (cols df) c = Some s \<Longrightarrow> i < length s \<Longrightarrow> cell_at df c i = Some (s ! i)"
  by (simp add: cell_at_def)

lemma update_fresh: "k \<notin> fst ` set al \<Longrightarrow> AList.update k v al = al @ [(k, v)]"
  by (induction al) auto

lemma columns_setitem: "set (columns (df_setitem df c s)) = insert c (set (columns df))"
  by (simp add: columns_def dom_update)

lemma getitem_setitem:
  "df_getitem (df_setitem df c s) d = (if d = c then Inr s else df_getitem df d)"
  by (simp add: df_getitem_def update_conv')

lemma set_update_delete:
  "distinct (map fst al) \<Longrightarrow>
     set (AList.update k v al) = insert (k, v) (set (AList.delete k al))"
proof (induction al)
  case Nil
  then show ?case by simp
next
  case (Cons p ps)
  show ?case
  proof (cases "fst p = k")
    case True
    with Cons.prems have "k \<notin> fst ` set ps" by auto
    then have "AList.delete k ps = ps" by simp
    with True show ?thesis by (cases p) simp
  next
    case False
    with Cons show ?thesis by (cases p) auto
  qed
qed

lemma frame_dtype_update:
  assumes "distinct (map fst cs)" and "col_dtype v = Int64"
  shows "frame_dtype (AList.update k v cs) = frame_dtype (AList.delete k cs)"
  using assms(2) by (simp add: frame_dtype_def list_ex_iff set_update_delete [OF assms(1)])

lemma df_apply_rows_length:
  "df_apply_rows rnd f df = Inr (SeriesR v) \<Longrightarrow> length v = nrows df"
  by (auto simp: df_apply_rows_def split: if_splits sum.splits dest: apply_each_Inr)

lemma df_apply_rows_nth:
  assumes "df_apply_rows rnd f df = Inr (SeriesR v)" and "i < nrows df"
  shows "f (frame_dtype (cols df)) (df_row rnd df i) = Inr (v ! i)"
proof -
  from assms have "apply_each (\<lambda>i. f (frame_dtype (cols df)) (df_row rnd df i)) [0..<nrows df] = Inr v"
    by (auto simp: df_apply_rows_def split: if_splits sum.splits)
  from apply_each_Inr [OF this] assms(2) show ?thesis by simp
qed

section \<open>Properties of the element functions\<close>

lemma positive_flag_Inr:
  "positive_flag x = Inr h \<Longrightarrow>
     (h = IntC 0 \<or> h = IntC 1) \<and> (h = IntC 1 \<longleftrightarrow> py_gt x 0 = Inr True)"
  by (auto simp: positive_flag_def split: sum.splits if_splits)

lemma positive_flag_int64:
  "apply_each positive_flag xs = Inr ys \<Longrightarrow> col_dtype ys = Int64"
proof -
  assume a: "apply_each positive_flag xs = Inr ys"
  have "is_int64 (ys ! i)" if "i < length ys" for i
  proof -
    from apply_each_Inr [OF a] that have "positive_flag (xs ! i) = Inr (ys ! i)" by simp
    from positive_flag_Inr [OF this] show ?thesis by auto
  qed
  then have "list_all is_int64 ys" by (simp add: list_all_length)
  then show ?thesis by (simp add: col_dtype_def)
qed

lemma py_gt_IntC: "py_gt (IntC n) k = Inr (k < n)"
  by (simp add: py_gt_def)




lemma categorize_finite:
  "num_of a = Some (Finite x) \<Longrightarrow>
     categorize_availability a =
       Inr (StrC (if x = 0 then ''Not Available'' else if x \<le> 120 then ''Low''
                  else if x \<le> 240 then ''Medium'' else ''High''))"
  by (auto simp: categorize_availability_def py_eq_def py_le_def fl_le_def)





subsection \<open>The division in a row\<close>

lemma to_float_coerce: "to_float rnd (coerce_cell rnd dt c) = to_float rnd c"
  by (cases dt; cases c) simp_all




lemma price_per_night_row_cong:
  assumes m: "row ''minimum_nights'' = row' ''minimum_nights''"
    and p: "row ''price'' = row' ''price''"
  shows "price_per_night_row rnd dt row = price_per_night_row rnd dt row'"
  unfolding price_per_night_row_def m p by (rule refl)


section \<open>What a successful run computes\<close>

text \<open>
  Each code cell, when it raises nothing, sets one column computed from the table it got.
\<close>

lemma add_has_review_Inr:
  "add_has_review df = Inr df' \<Longrightarrow>
     \<exists>s v. map_of (cols df) ''number_of_reviews'' = Some s \<and>
           apply_each positive_flag s = Inr v \<and> df' = df_setitem df ''has_review'' v"
  by (auto simp: add_has_review_def df_getitem_def split: option.splits sum.splits)

lemma add_price_per_night_Inr:
  "add_price_per_night rnd df = Inr df' \<Longrightarrow>
     \<exists>v. df_apply_rows rnd (price_per_night_row rnd) df = Inr (SeriesR v) \<and>
         df' = df_setitem df ''price_per_night'' (map replace_inf v)"
  by (auto simp: add_price_per_night_def df_getitem_def update_conv' Let_def
           split: option.splits sum.splits apply_result.splits)

lemma add_active_listing_Inr:
  "add_active_listing df = Inr df' \<Longrightarrow>
     \<exists>s v. map_of (cols df) ''availability_365'' = Some s \<and>
           apply_each positive_flag s = Inr v \<and> df' = df_setitem df ''active_listing'' v"
  by (auto simp: add_active_listing_def df_getitem_def split: option.splits sum.splits)

lemma add_seasonal_availability_Inr:
  "add_seasonal_availability df = Inr df' \<Longrightarrow>
     \<exists>s v. map_of (cols df) ''availability_365'' = Some s \<and>
           apply_each categorize_availability s = Inr v \<and>
           df' = df_setitem df ''seasonal_availability'' v"
  by (auto simp: add_seasonal_availability_def df_getitem_def split: option.splits sum.splits)

lemma add_is_entire_home_Inr:
  "add_is_entire_home df = Inr df' \<Longrightarrow>
     \<exists>s. map_of (cols df) ''room_type'' = Some s \<and>
         df' = df_setitem df ''is_entire_home'' (map is_entire_home s)"
  by (auto simp: add_is_entire_home_def df_getitem_def split: option.splits sum.splits)

text \<open>
  No cell overwrites a column that a later cell reads, so every derived column of the final
  table is computed from the columns of the loaded table. The rows of the
  \<open>price_per_night\<close> cell are those of the table with \<open>has_review\<close> set.
\<close>

lemma pipeline_Inr:
  assumes "pipeline rnd df = Inr df'"
  shows "\<exists>nr av rt hr q al sa.
      map_of (cols df) ''number_of_reviews'' = Some nr \<and>
      map_of (cols df) ''availability_365'' = Some av \<and>
      map_of (cols df) ''room_type'' = Some rt \<and>
      apply_each positive_flag nr = Inr hr \<and>
      df_apply_rows rnd (price_per_night_row rnd) (df_setitem df ''has_review'' hr) =
        Inr (SeriesR q) \<and>
      apply_each positive_flag av = Inr al \<and>
      apply_each categorize_availability av = Inr sa \<and>
      df' = df_setitem (df_setitem (df_setitem (df_setitem (df_setitem df
              ''has_review'' hr) ''price_per_night'' (map replace_inf q))
              ''active_listing'' al) ''seasonal_availability'' sa)
              ''is_entire_home'' (map is_entire_home rt)"
proof -
  from assms obtain df1 df2 df3 df4 where
    s1: "add_has_review df = Inr df1" and
    s2: "add_price_per_night rnd df1 = Inr df2" and
    s3: "add_active_listing df2 = Inr df3" and
    s4: "add_seasonal_availability df3 = Inr df4" and
    s5: "add_is_entire_home df4 = Inr df'"
    by (auto simp: pipeline_def split: sum.splits)
  from add_has_review_Inr [OF s1] obtain nr hr where
    nr: "map_of (cols df) ''number_of_reviews'' = Some nr" and
    hr: "apply_each positive_flag nr = Inr hr" and
    d1: "df1 = df_setitem df ''has_review'' hr" by blast
  from add_price_per_night_Inr [OF s2] obtain q where
    q1: "df_apply_rows rnd (price_per_night_row rnd) df1 = Inr (SeriesR q)" and
    d2: "df2 = df_setitem df1 ''price_per_night'' (map replace_inf q)" by blast
  from q1 d1 have q: "df_apply_rows rnd (price_per_night_row rnd)
      (df_setitem df ''has_review'' hr) = Inr (SeriesR q)"
    by simp
  from add_active_listing_Inr [OF s3] obtain av al where
    av3: "map_of (cols df2) ''availability_365'' = Some av" and
    al: "apply_each positive_flag av = Inr al" and
    d3: "df3 = df_setitem df2 ''active_listing'' al" by blast
  from av3 d2 d1 have av: "map_of (cols df) ''availability_365'' = Some av"
    by (simp add: update_conv')
  from add_seasonal_availability_Inr [OF s4] obtain av' sa where
    av4: "map_of (cols df3) ''availability_365'' = Some av'" and
    sa': "apply_each categorize_availability av' = Inr sa" and
    d4: "df4 = df_setitem df3 ''seasonal_availability'' sa" by blast
  from av4 d3 d2 d1 av have "av' = av"
    by (simp add: update_conv')
  with sa' have sa: "apply_each categorize_availability av = Inr sa" by simp
  from add_is_entire_home_Inr [OF s5] obtain rt where
    rt5: "map_of (cols df4) ''room_type'' = Some rt" and
    d5: "df' = df_setitem df4 ''is_entire_home'' (map is_entire_home rt)" by blast
  from rt5 d4 d3 d2 d1 have rt: "map_of (cols df) ''room_type'' = Some rt"
    by (simp add: update_conv')
  from nr av rt hr q al sa d5 d4 d3 d2 d1 show ?thesis by blast
qed

text \<open>
  The same, row by row. The column \<open>has_review\<close> holds integers when the rows are
  made, so the dtype of the rows is \<open>rows_dtype\<close> of the loaded table.
\<close>

lemma pipeline_row:
  assumes run: "pipeline rnd df = Inr df'" and wf: "wf_df df" and i: "i < nrows df"
  shows "\<exists>nr av rt hr q al sa.
      cell_at df ''number_of_reviews'' i = Some nr \<and>
      cell_at df ''availability_365'' i = Some av \<and>
      cell_at df ''room_type'' i = Some rt \<and>
      positive_flag nr = Inr hr \<and>
      price_per_night_row rnd (rows_dtype df)
        (\<lambda>c. map_option (coerce_cell rnd (rows_dtype df)) (cell_at df c i)) = Inr q \<and>
      positive_flag av = Inr al \<and>
      categorize_availability av = Inr sa \<and>
      cell_at df' ''has_review'' i = Some hr \<and>
      cell_at df' ''price_per_night'' i = Some (replace_inf q) \<and>
      cell_at df' ''active_listing'' i = Some al \<and>
      cell_at df' ''seasonal_availability'' i = Some sa \<and>
      cell_at df' ''is_entire_home'' i = Some (is_entire_home rt)"
proof -
  from pipeline_Inr [OF run] obtain NR AV RT HR Q AL SA where
    nr: "map_of (cols df) ''number_of_reviews'' = Some NR" and
    av: "map_of (cols df) ''availability_365'' = Some AV" and
    rt: "map_of (cols df) ''room_type'' = Some RT" and
    hr: "apply_each positive_flag NR = Inr HR" and
    q: "df_apply_rows rnd (price_per_night_row rnd) (df_setitem df ''has_review'' HR) =
          Inr (SeriesR Q)" and
    al: "apply_each positive_flag AV = Inr AL" and
    sa: "apply_each categorize_availability AV = Inr SA" and
    out: "df' = df_setitem (df_setitem (df_setitem (df_setitem (df_setitem df
              ''has_review'' HR) ''price_per_night'' (map replace_inf Q))
              ''active_listing'' AL) ''seasonal_availability'' SA)
              ''is_entire_home'' (map is_entire_home RT)"
    by blast
  have lnr: "i < length NR" and lav: "i < length AV" and lrt: "i < length RT"
    using wf_df_length [OF wf nr] wf_df_length [OF wf av] wf_df_length [OF wf rt] i
    by simp_all
  from apply_each_Inr [OF hr] lnr
  have lhr: "i < length HR" and vhr: "positive_flag (NR ! i) = Inr (HR ! i)" by simp_all
  from apply_each_Inr [OF al] lav
  have lal: "i < length AL" and val: "positive_flag (AV ! i) = Inr (AL ! i)" by simp_all
  from apply_each_Inr [OF sa] lav
  have lsa: "i < length SA" and vsa: "categorize_availability (AV ! i) = Inr (SA ! i)"
    by simp_all
  let ?df1 = "df_setitem df ''has_review'' HR"
  from df_apply_rows_length [OF q] i have lq: "i < length Q" by simp
  from wf have "distinct (map fst (cols df))" by (simp add: wf_df_def columns_def)
  from frame_dtype_update [OF this positive_flag_int64 [OF hr]]
  have dt: "frame_dtype (AList.update ''has_review'' HR (cols df)) = rows_dtype df"
    by (simp add: rows_dtype_def)
  from i have i1: "i < nrows ?df1" by simp
  from df_apply_rows_nth [OF q i1]
  have "price_per_night_row rnd (rows_dtype df) (df_row rnd ?df1 i) = Inr (Q ! i)"
    by (simp add: dt)
  moreover have "price_per_night_row rnd (rows_dtype df) (df_row rnd ?df1 i) =
      price_per_night_row rnd (rows_dtype df)
        (\<lambda>c. map_option (coerce_cell rnd (rows_dtype df)) (cell_at df c i))"
    by (rule price_per_night_row_cong) (simp_all add: df_row_def dt cell_at_setitem)
  ultimately have vq: "price_per_night_row rnd (rows_dtype df)
        (\<lambda>c. map_option (coerce_cell rnd (rows_dtype df)) (cell_at df c i)) = Inr (Q ! i)"
    by simp
  have c1: "cell_at df ''number_of_reviews'' i = Some (NR ! i)"
    using nr lnr by (rule cell_at_Some)
  have c2: "cell_at df ''availability_365'' i = Some (AV ! i)"
    using av lav by (rule cell_at_Some)
  have c3: "cell_at df ''room_type'' i = Some (RT ! i)"
    using rt lrt by (rule cell_at_Some)
  have o1: "cell_at df' ''has_review'' i = Some (HR ! i)"
    using lhr by (simp add: out cell_at_setitem)
  have o2: "cell_at df' ''price_per_night'' i = Some (replace_inf (Q ! i))"
    using lq by (simp add: out cell_at_setitem)
  have o3: "cell_at df' ''active_listing'' i = Some (AL ! i)"
    using lal by (simp add: out cell_at_setitem)
  have o4: "cell_at df' ''seasonal_availability'' i = Some (SA ! i)"
    using lsa by (simp add: out cell_at_setitem)
  have o5: "cell_at df' ''is_entire_home'' i = Some (is_entire_home (RT ! i))"
    using lrt by (simp add: out cell_at_setitem)
  show ?thesis
    by (intro exI conjI)
       (rule c1, rule c2, rule c3, rule vhr, rule vq, rule val, rule vsa,
        rule o1, rule o2, rule o3, rule o4, rule o5)
qed

section \<open>The sample runs\<close>

lemma sample_run: "pipeline Finite sample_listings = Inr sample_out"
  by code_simp

lemma sample_wf: "wf_df sample_listings"
  by code_simp

lemma reordered_run: "pipeline Finite sample_reordered = Inr reordered_out"
  by code_simp


lemma flagged_run: "pipeline Finite flagged_listings = Inr flagged_out"
  by code_simp











lemma sample_row0: "0 < nrows sample_listings"
  by (simp add: sample_listings_def)

lemma sample_row1: "1 < nrows sample_listings"
  by (simp add: sample_listings_def)

lemma sample_row2: "2 < nrows sample_listings"
  by (simp add: sample_listings_def)

lemmas sample_cell = cell_at_def sample_listings_def

section \<open>The claims\<close>

text \<open>
  Throughout, a run is \<open>pipeline rnd df = Inr df'\<close>: the notebook raised nothing on the
  loaded table \<open>df\<close> and wrote \<open>df'\<close>. A row is an index \<open>i < nrows df\<close> of a
  well-formed table (distinct column names, every column as long as the table).
\<close>

subsection \<open>C1: the guarded division\<close>



subsection \<open>C2: the availability buckets\<close>

text \<open>
  C2. For every row whose \<open>availability_365\<close> is a number \<open>x\<close> in \<open>[0, 365]\<close>,
  \<open>seasonal_availability\<close> is one of the four labels, and it is "Not Available" iff
  \<open>x = 0\<close>, "Low" iff \<open>x\<close> is in \<open>(0, 120]\<close>, "Medium" iff it is in \<open>(120, 240]\<close>
  and "High" iff it is in \<open>(240, 365]\<close>. The four labels are distinct strings and the
  four conditions split \<open>[0, 365]\<close>, so each row gets exactly one label.
\<close>

theorem seasonal_availability_buckets:
  assumes "pipeline rnd df = Inr df'" and "wf_df df" and "i < nrows df"
    and "cell_at df ''availability_365'' i = Some a"
    and "num_of a = Some (Finite x)" and "0 \<le> x" and "x \<le> 365"
  shows "\<exists>s. cell_at df' ''seasonal_availability'' i = Some (StrC s) \<and>
             s \<in> set [''Not Available'', ''Low'', ''Medium'', ''High''] \<and>
             (s = ''Not Available'' \<longleftrightarrow> x = 0) \<and>
             (s = ''Low'' \<longleftrightarrow> 0 < x \<and> x \<le> 120) \<and>
             (s = ''Medium'' \<longleftrightarrow> 120 < x \<and> x \<le> 240) \<and>
             (s = ''High'' \<longleftrightarrow> 240 < x \<and> x \<le> 365)"
proof -
  from pipeline_row [OF assms(1-3)] assms(4) obtain sa where
    c: "categorize_availability a = Inr sa" and
    s: "cell_at df' ''seasonal_availability'' i = Some sa" by auto
  let ?s = "if x = 0 then ''Not Available'' else if x \<le> 120 then ''Low''
            else if x \<le> 240 then ''Medium'' else ''High''"
  from c categorize_finite [OF assms(5)] have sa: "sa = StrC ?s" by simp
  have "?s \<in> set [''Not Available'', ''Low'', ''Medium'', ''High'']" by simp
  moreover have "?s = ''Not Available'' \<longleftrightarrow> x = 0" by simp
  moreover have "?s = ''Low'' \<longleftrightarrow> 0 < x \<and> x \<le> 120" using assms(6) by auto
  moreover have "?s = ''Medium'' \<longleftrightarrow> 120 < x \<and> x \<le> 240" by auto
  moreover have "?s = ''High'' \<longleftrightarrow> 240 < x \<and> x \<le> 365" using assms(7) by auto
  ultimately show ?thesis using s sa by blast
qed

theorem seasonal_availability_buckets_witness:
  "cell_at sample_listings ''availability_365'' 2 = Some (IntC 200) \<and>
   cell_at sample_out ''seasonal_availability'' 2 = Some (StrC ''Medium'')"
proof -
  have a: "cell_at sample_listings ''availability_365'' 2 = Some (IntC 200)"
    by (simp add: sample_cell)
  have n: "num_of (IntC 200) = Some (Finite 200)" by simp
  from seasonal_availability_buckets [OF sample_run sample_wf sample_row2 a n]
  have "cell_at sample_out ''seasonal_availability'' 2 = Some (StrC ''Medium'')" by auto
  with a show ?thesis by simp
qed

subsection \<open>C3: the shape of the output table\<close>

text \<open>
  As stated for every input table, C3 fails: \<^verbatim>\<open>df['has_review'] = ...\<close> replaces a
  column of that name where it stands. On a table that already has a \<open>has_review\<close>
  column the output has four more columns than the input, not five, and the input's
  \<open>has_review\<close> values are overwritten.
\<close>

theorem pipeline_shape_counterexample:
  "pipeline Finite flagged_listings = Inr flagged_out \<and> wf_df flagged_listings \<and>
   length (columns flagged_out) = length (columns flagged_listings) + 4 \<and>
   length (columns flagged_out) \<noteq> length (columns flagged_listings) + 5 \<and>
   cell_at flagged_listings ''has_review'' 0 = Some (IntC 7) \<and>
   cell_at flagged_out ''has_review'' 0 = Some (IntC 0)"
proof -
  have "wf_df flagged_listings" by code_simp
  moreover have "length (columns flagged_out) = length (columns flagged_listings) + 4"
    by (simp add: columns_def flagged_out_def flagged_listings_def)
  moreover have "cell_at flagged_listings ''has_review'' 0 = Some (IntC 7)"
    by (simp add: cell_at_def flagged_listings_def)
  moreover have "cell_at flagged_out ''has_review'' 0 = Some (IntC 0)"
    by (simp add: cell_at_def flagged_out_def)
  ultimately show ?thesis using flagged_run by simp
qed

text \<open>
  C3, amended. For every well-formed input table that has none of the five derived names
  among its columns and on which the notebook raises nothing, the output has the same
  number of rows (and every column of it has that many entries), its column count is the
  input's plus exactly 5, the original columns are unchanged and come first, and the five
  derived columns follow them in the order \<open>derived_names\<close>.
\<close>

theorem pipeline_shape:
  assumes run: "pipeline rnd df = Inr df'" and wf: "wf_df df"
    and fresh: "set derived_names \<inter> set (columns df) = {}"
  shows "nrows df' = nrows df \<and> wf_df df' \<and>
         length (columns df') = length (columns df) + 5 \<and>
         columns df' = columns df @ derived_names \<and>
         take (length (cols df)) (cols df') = cols df"
proof -
  from pipeline_Inr [OF run] obtain NR AV RT HR Q AL SA where
    nr: "map_of (cols df) ''number_of_reviews'' = Some NR" and
    av: "map_of (cols df) ''availability_365'' = Some AV" and
    rt: "map_of (cols df) ''room_type'' = Some RT" and
    hr: "apply_each positive_flag NR = Inr HR" and
    q: "df_apply_rows rnd (price_per_night_row rnd) (df_setitem df ''has_review'' HR) =
          Inr (SeriesR Q)" and
    al: "apply_each positive_flag AV = Inr AL" and
    sa: "apply_each categorize_availability AV = Inr SA" and
    out: "df' = df_setitem (df_setitem (df_setitem (df_setitem (df_setitem df
              ''has_review'' HR) ''price_per_night'' (map replace_inf Q))
              ''active_listing'' AL) ''seasonal_availability'' SA)
              ''is_entire_home'' (map is_entire_home RT)"
    by blast
  let ?new = "[(''has_review'', HR), (''price_per_night'', map replace_inf Q),
               (''active_listing'', AL), (''seasonal_availability'', SA),
               (''is_entire_home'', map is_entire_home RT)]"
  from fresh have f:
    "''has_review'' \<notin> fst ` set (cols df)" "''price_per_night'' \<notin> fst ` set (cols df)"
    "''active_listing'' \<notin> fst ` set (cols df)"
    "''seasonal_availability'' \<notin> fst ` set (cols df)"
    "''is_entire_home'' \<notin> fst ` set (cols df)"
    by (auto simp: derived_names_def columns_def)
  have c: "cols df' = cols df @ ?new"
    using f by (simp add: out update_fresh image_Un)
  have n: "nrows df' = nrows df" by (simp add: out)
  have l: "length HR = nrows df" "length Q = nrows df" "length AL = nrows df"
    "length SA = nrows df" "length RT = nrows df"
    using apply_each_Inr [OF hr] apply_each_Inr [OF al] apply_each_Inr [OF sa]
      df_apply_rows_length [OF q]
      wf_df_length [OF wf nr] wf_df_length [OF wf av] wf_df_length [OF wf rt]
    by simp_all
  have d: "distinct (columns df')"
    using wf f by (simp add: wf_df_def columns_def c)
  have a: "list_all (\<lambda>p. length (snd p) = nrows df') (cols df')"
    using wf l by (simp add: wf_df_def c n)
  have k: "columns df' = columns df @ derived_names"
    by (simp add: columns_def c derived_names_def)
  from d a have "wf_df df'" by (simp add: wf_df_def)
  moreover from k have "length (columns df') = length (columns df) + 5"
    by (simp add: derived_names_def)
  moreover have "take (length (cols df)) (cols df') = cols df" by (simp add: c)
  ultimately show ?thesis using n k by blast
qed

theorem pipeline_shape_witness:
  "nrows sample_out = nrows sample_listings \<and> wf_df sample_out \<and>
   length (columns sample_out) = length (columns sample_listings) + 5 \<and>
   columns sample_out = columns sample_listings @ derived_names"
proof -
  have "set derived_names \<inter> set (columns sample_listings) = {}"
    by (simp add: derived_names_def columns_def sample_listings_def)
  from pipeline_shape [OF sample_run sample_wf this] show ?thesis by blast
qed

subsection \<open>C4: the number of derived columns\<close>

text \<open>
  As stated, C4 fails: the notebook has five deriving cells and sets five columns, not
  six. On the sample the output has five columns more than the input.
\<close>

theorem derived_column_count_counterexample:
  "pipeline Finite sample_listings = Inr sample_out \<and>
   length (columns sample_out) = length (columns sample_listings) + 5 \<and>
   length (columns sample_out) \<noteq> length (columns sample_listings) + 6"
  using sample_run by (simp add: columns_def sample_out_def sample_listings_def)

text \<open>
  C4, amended. The pipeline computes five derived columns, one per deriving cell: after a
  run the columns of the output are those of the input together with the five distinct
  names of \<open>derived_names\<close>, each of the five is present, every other column is as it
  was, and each of the five cells sets exactly the one column named after it.
\<close>

theorem pipeline_five_derived_columns:
  assumes run: "pipeline rnd df = Inr df'"
  shows "set (columns df') = set (columns df) \<union> set derived_names \<and>
         length derived_names = 5 \<and> distinct derived_names \<and>
         (\<forall>d\<in>set derived_names. \<exists>s. df_getitem df' d = Inr s) \<and>
         (\<forall>c. c \<notin> set derived_names \<longrightarrow> df_getitem df' c = df_getitem df c) \<and>
         (\<forall>a b. add_has_review a = Inr b \<longrightarrow>
                set (columns b) = insert ''has_review'' (set (columns a))) \<and>
         (\<forall>a b. add_price_per_night rnd a = Inr b \<longrightarrow>
                set (columns b) = insert ''price_per_night'' (set (columns a))) \<and>
         (\<forall>a b. add_active_listing a = Inr b \<longrightarrow>
                set (columns b) = insert ''active_listing'' (set (columns a))) \<and>
         (\<forall>a b. add_seasonal_availability a = Inr b \<longrightarrow>
                set (columns b) = insert ''seasonal_availability'' (set (columns a))) \<and>
         (\<forall>a b. add_is_entire_home a = Inr b \<longrightarrow>
                set (columns b) = insert ''is_entire_home'' (set (columns a)))"
proof -
  from pipeline_Inr [OF run] obtain HR Q AL SA RT where
    out: "df' = df_setitem (df_setitem (df_setitem (df_setitem (df_setitem df
              ''has_review'' HR) ''price_per_night'' (map replace_inf Q))
              ''active_listing'' AL) ''seasonal_availability'' SA)
              ''is_entire_home'' (map is_entire_home RT)"
    by blast
  have "set (columns df') = set (columns df) \<union> set derived_names"
    by (auto simp: out columns_setitem derived_names_def)
  moreover have "length derived_names = 5" "distinct derived_names"
    by (simp_all add: derived_names_def)
  moreover have "\<forall>d\<in>set derived_names. \<exists>s. df_getitem df' d = Inr s"
    by (simp add: out getitem_setitem derived_names_def)
  moreover have "\<forall>c. c \<notin> set derived_names \<longrightarrow> df_getitem df' c = df_getitem df c"
    by (simp add: out getitem_setitem derived_names_def)
  moreover have "\<forall>a b. add_has_review a = Inr b \<longrightarrow>
                   set (columns b) = insert ''has_review'' (set (columns a))"
    by (auto dest!: add_has_review_Inr simp: columns_setitem)
  moreover have "\<forall>a b. add_price_per_night rnd a = Inr b \<longrightarrow>
                   set (columns b) = insert ''price_per_night'' (set (columns a))"
    by (auto dest!: add_price_per_night_Inr simp: columns_setitem)
  moreover have "\<forall>a b. add_active_listing a = Inr b \<longrightarrow>
                   set (columns b) = insert ''active_listing'' (set (columns a))"
    by (auto dest!: add_active_listing_Inr simp: columns_setitem)
  moreover have "\<forall>a b. add_seasonal_availability a = Inr b \<longrightarrow>
                   set (columns b) = insert ''seasonal_availability'' (set (columns a))"
    by (auto dest!: add_seasonal_availability_Inr simp: columns_setitem)
  moreover have "\<forall>a b. add_is_entire_home a = Inr b \<longrightarrow>
                   set (columns b) = insert ''is_entire_home'' (set (columns a))"
    by (auto dest!: add_is_entire_home_Inr simp: columns_setitem)
  ultimately show ?thesis by blast
qed

theorem pipeline_five_derived_columns_witness:
  "set (columns sample_out) = set (columns sample_listings) \<union> set derived_names \<and>
   length derived_names = 5 \<and>
   df_getitem sample_out ''price'' = df_getitem sample_listings ''price''"
proof -
  note t = pipeline_five_derived_columns [OF sample_run]
  have p: "''price'' \<notin> set derived_names" by (simp add: derived_names_def)
  have a: "set (columns sample_out) = set (columns sample_listings) \<union> set derived_names"
    by (rule t [THEN conjunct1])
  have b: "length derived_names = 5"
    by (rule t [THEN conjunct2, THEN conjunct1])
  have c: "df_getitem sample_out ''price'' = df_getitem sample_listings ''price''"
    by (rule t [THEN conjunct2, THEN conjunct2, THEN conjunct2, THEN conjunct2,
                THEN conjunct1, THEN spec, THEN mp, OF p])
  show ?thesis by (intro conjI) (rule a, rule b, rule c)
qed

subsection \<open>C5, C6, C7: the three flags\<close>

text \<open>
  C5. For every row, \<open>has_review\<close> is 0 or 1, and it is 1 iff
  \<open>number_of_reviews > 0\<close>; for an integer count \<open>n\<close> that is \<open>0 < n\<close>.
\<close>

theorem has_review_flag:
  assumes "pipeline rnd df = Inr df'" and "wf_df df" and "i < nrows df"
  shows "\<exists>x h. cell_at df ''number_of_reviews'' i = Some x \<and>
               cell_at df' ''has_review'' i = Some h \<and>
               (h = IntC 0 \<or> h = IntC 1) \<and>
               (h = IntC 1 \<longleftrightarrow> py_gt x 0 = Inr True) \<and>
               (\<forall>n. x = IntC n \<longrightarrow> (h = IntC 1 \<longleftrightarrow> 0 < n))"
proof -
  from pipeline_row [OF assms] obtain x h where
    x: "cell_at df ''number_of_reviews'' i = Some x" and
    h: "cell_at df' ''has_review'' i = Some h" and
    f: "positive_flag x = Inr h" by blast
  from positive_flag_Inr [OF f]
  have v: "h = IntC 0 \<or> h = IntC 1" and g: "h = IntC 1 \<longleftrightarrow> py_gt x 0 = Inr True"
    by blast+
  from g have "\<forall>n. x = IntC n \<longrightarrow> (h = IntC 1 \<longleftrightarrow> 0 < n)"
    by (simp add: py_gt_IntC)
  with x h v g show ?thesis by blast
qed

theorem has_review_flag_witness:
  "cell_at sample_listings ''number_of_reviews'' 0 = Some (IntC 9) \<and>
   cell_at sample_out ''has_review'' 0 = Some (IntC 1) \<and>
   cell_at sample_listings ''number_of_reviews'' 1 = Some (IntC 0) \<and>
   cell_at sample_out ''has_review'' 1 = Some (IntC 0)"
proof -
  have x: "cell_at sample_listings ''number_of_reviews'' 0 = Some (IntC 9)"
    "cell_at sample_listings ''number_of_reviews'' 1 = Some (IntC 0)"
    by (simp_all add: sample_cell)
  from has_review_flag [OF sample_run sample_wf sample_row0] x(1)
  have "cell_at sample_out ''has_review'' 0 = Some (IntC 1)" by auto
  moreover from has_review_flag [OF sample_run sample_wf sample_row1] x(2)
  have "cell_at sample_out ''has_review'' 1 = Some (IntC 0)" by auto
  ultimately show ?thesis using x by simp
qed

text \<open>
  C6. For every row, \<open>active_listing\<close> is 1 iff \<open>availability_365 > 0\<close>, and 0
  otherwise; for an integer availability \<open>n\<close> the condition is \<open>0 < n\<close>.
\<close>

theorem active_listing_flag:
  assumes "pipeline rnd df = Inr df'" and "wf_df df" and "i < nrows df"
  shows "\<exists>a v. cell_at df ''availability_365'' i = Some a \<and>
               cell_at df' ''active_listing'' i = Some v \<and>
               (v = IntC 1 \<longleftrightarrow> py_gt a 0 = Inr True) \<and>
               (v \<noteq> IntC 1 \<longrightarrow> v = IntC 0) \<and>
               (\<forall>n. a = IntC n \<longrightarrow> (v = IntC 1 \<longleftrightarrow> 0 < n))"
proof -
  from pipeline_row [OF assms] obtain a v where
    a: "cell_at df ''availability_365'' i = Some a" and
    v: "cell_at df' ''active_listing'' i = Some v" and
    f: "positive_flag a = Inr v" by blast
  from positive_flag_Inr [OF f]
  have r: "v = IntC 0 \<or> v = IntC 1" and g: "v = IntC 1 \<longleftrightarrow> py_gt a 0 = Inr True"
    by blast+
  from g have "\<forall>n. a = IntC n \<longrightarrow> (v = IntC 1 \<longleftrightarrow> 0 < n)"
    by (simp add: py_gt_IntC)
  with a v r g show ?thesis by blast
qed

theorem active_listing_flag_witness:
  "cell_at sample_listings ''availability_365'' 0 = Some (IntC 365) \<and>
   cell_at sample_out ''active_listing'' 0 = Some (IntC 1) \<and>
   cell_at sample_listings ''availability_365'' 1 = Some (IntC 0) \<and>
   cell_at sample_out ''active_listing'' 1 = Some (IntC 0)"
proof -
  have a: "cell_at sample_listings ''availability_365'' 0 = Some (IntC 365)"
    "cell_at sample_listings ''availability_365'' 1 = Some (IntC 0)"
    by (simp_all add: sample_cell)
  from active_listing_flag [OF sample_run sample_wf sample_row0] a(1)
  have "cell_at sample_out ''active_listing'' 0 = Some (IntC 1)" by auto
  moreover from active_listing_flag [OF sample_run sample_wf sample_row1] a(2)
  have "cell_at sample_out ''active_listing'' 1 = Some (IntC 0)" by auto
  ultimately show ?thesis using a by simp
qed

text \<open>
  C7. For every row, \<open>is_entire_home\<close> is 1 iff \<open>room_type\<close> is exactly the string
  "Entire home/apt", and 0 for every other value of \<open>room_type\<close>.
\<close>

theorem is_entire_home_flag:
  assumes "pipeline rnd df = Inr df'" and "wf_df df" and "i < nrows df"
  shows "\<exists>r e. cell_at df ''room_type'' i = Some r \<and>
               cell_at df' ''is_entire_home'' i = Some e \<and>
               (e = IntC 1 \<longleftrightarrow> r = StrC ''Entire home/apt'') \<and>
               (r \<noteq> StrC ''Entire home/apt'' \<longrightarrow> e = IntC 0)"
proof -
  from pipeline_row [OF assms] obtain r where
    r: "cell_at df ''room_type'' i = Some r" and
    e: "cell_at df' ''is_entire_home'' i = Some (is_entire_home r)" by blast
  have "is_entire_home r = IntC 1 \<longleftrightarrow> r = StrC ''Entire home/apt''"
    by (cases r) simp_all
  moreover have "r \<noteq> StrC ''Entire home/apt'' \<longrightarrow> is_entire_home r = IntC 0"
    by (cases r) simp_all
  ultimately show ?thesis using r e by blast
qed

theorem is_entire_home_flag_witness:
  "cell_at sample_listings ''room_type'' 0 = Some (StrC ''Entire home/apt'') \<and>
   cell_at sample_out ''is_entire_home'' 0 = Some (IntC 1) \<and>
   cell_at sample_listings ''room_type'' 1 = Some (StrC ''Private room'') \<and>
   cell_at sample_out ''is_entire_home'' 1 = Some (IntC 0)"
proof -
  have r: "cell_at sample_listings ''room_type'' 0 = Some (StrC ''Entire home/apt'')"
    "cell_at sample_listings ''room_type'' 1 = Some (StrC ''Private room'')"
    by (simp_all add: sample_cell)
  from is_entire_home_flag [OF sample_run sample_wf sample_row0] r(1)
  have "cell_at sample_out ''is_entire_home'' 0 = Some (IntC 1)" by auto
  moreover from is_entire_home_flag [OF sample_run sample_wf sample_row1] r(2)
  have "cell_at sample_out ''is_entire_home'' 1 = Some (IntC 0)" by auto
  ultimately show ?thesis using r by simp
qed

subsection \<open>C8: derived fields and the other rows\<close>




subsection \<open>C9: the bucket function outside the expected range\<close>

text \<open>
  C9. On every integer \<open>categorize_availability\<close> returns one of the four labels and
  raises nothing; a negative input gets "Low" and an input above 365 gets "High".
\<close>

theorem categorize_availability_total:
  "\<exists>s. categorize_availability (IntC x) = Inr (StrC s) \<and>
       s \<in> set [''Not Available'', ''Low'', ''Medium'', ''High''] \<and>
       (x < 0 \<longrightarrow> s = ''Low'') \<and> (365 < x \<longrightarrow> s = ''High'')"
  by (simp add: categorize_finite)

theorem categorize_availability_total_witness:
  "categorize_availability (IntC (- 5)) = Inr (StrC ''Low'') \<and>
   categorize_availability (IntC 400) = Inr (StrC ''High'')"
  using categorize_availability_total [of "- 5"] categorize_availability_total [of 400]
  by auto

subsection \<open>C10: the flag and the label agree\<close>

text \<open>
  C10. For every row whose \<open>availability_365\<close> is a number that is at least 0,
  \<open>active_listing\<close> is 0 iff \<open>seasonal_availability\<close> is "Not Available".
\<close>

theorem active_listing_consistent:
  assumes "pipeline rnd df = Inr df'" and "wf_df df" and "i < nrows df"
    and "cell_at df ''availability_365'' i = Some a"
    and "num_of a = Some f" and "fl_le (Finite 0) f"
  shows "\<exists>al sa. cell_at df' ''active_listing'' i = Some al \<and>
                 cell_at df' ''seasonal_availability'' i = Some sa \<and>
                 (al = IntC 0 \<longleftrightarrow> sa = StrC ''Not Available'')"
proof -
  from pipeline_row [OF assms(1-3)] assms(4) obtain al sa where
    al: "cell_at df' ''active_listing'' i = Some al" and
    sa: "cell_at df' ''seasonal_availability'' i = Some sa" and
    p: "positive_flag a = Inr al" and
    c: "categorize_availability a = Inr sa" by auto
  have "al = IntC 0 \<longleftrightarrow> sa = StrC ''Not Available''"
  proof (cases f)
    case (Finite x)
    with assms(6) have "0 \<le> x" by (auto simp: fl_le_def)
    with p c assms(5) Finite show ?thesis
      by (auto simp: positive_flag_def py_gt_def categorize_finite split: if_splits)
  next
    case PInf
    with p c assms(5) show ?thesis
      by (auto simp: positive_flag_def py_gt_def categorize_availability_def
                     py_eq_def py_le_def fl_le_def)
  next
    case NInf
    with assms(6) show ?thesis by (simp add: fl_le_def)
  next
    case NaN
    with assms(6) show ?thesis by (simp add: fl_le_def)
  qed
  with al sa show ?thesis by blast
qed

theorem active_listing_consistent_witness:
  "cell_at sample_listings ''availability_365'' 1 = Some (IntC 0) \<and>
   cell_at sample_out ''active_listing'' 1 = Some (IntC 0) \<and>
   cell_at sample_out ''seasonal_availability'' 1 = Some (StrC ''Not Available'')"
proof -
  have a: "cell_at sample_listings ''availability_365'' 1 = Some (IntC 0)"
    by (simp add: sample_cell)
  have n: "num_of (IntC 0) = Some (Finite 0)" by simp
  have g: "fl_le (Finite 0) (Finite 0)" by (simp add: fl_le_def)
  have v: "cell_at sample_out ''active_listing'' 1 = Some (IntC 0)"
    by (simp add: cell_at_def sample_out_def)
  from active_listing_consistent [OF sample_run sample_wf sample_row1 a n g] v
  have "cell_at sample_out ''seasonal_availability'' 1 = Some (StrC ''Not Available'')"
    by auto
  with a v show ?thesis by simp
qed

end
